theory Spec2Isabelle
  imports Main "HOL-Library.Word"
begin

unbundle bit_operations_syntax

section \<open>AetherCore identity protocol: the firmware implementation (identity.h)\<close>

text \<open>
  The development embeds \<^verbatim>\<open>src/firmware/ralphie_esp32/identity.h\<close>. The C code works on
  character arrays and NUL-terminated strings, so arrays are lists of \<open>char\<close> that hold the
  terminator and whatever follows it, and every function that receives a
  \<^verbatim>\<open>const char*\<close> reads it as C does: up to the first NUL.
  An output parameter (\<^verbatim>\<open>char* hex_out\<close>, \<^verbatim>\<open>IdentityBlock* block\<close>) is passed in with
  its current content and returned updated; the arguments of a call are taken not to
  overlap its output. \<^verbatim>\<open>printIdentityBlock\<close> only prints and is left out.
\<close>

subsection \<open>C strings and the library functions the code calls\<close>

abbreviation NUL :: char where
  "NUL \<equiv> CHR 0x00"

type_synonym u8 = "8 word"

text \<open>
  The characters of the C string that starts at a pointer: everything before the first
  NUL. A list without NUL is read as terminated at its end.
\<close>

definition cstring :: "string \<Rightarrow> string" where
  "cstring p = takeWhile (\<lambda>c. c \<noteq> NUL) p"

definition strlen :: "string \<Rightarrow> nat" where
  "strlen p = length (cstring p)"

text \<open>
  \<^verbatim>\<open>strncpy(dest, src, n)\<close> of the C library: the first \<open>n\<close> cells of \<open>dest\<close> receive the
  characters of \<open>src\<close>, at most \<open>n\<close> of them, followed by NULs when \<open>src\<close> is shorter than \<open>n\<close>.
  No terminator is written when \<open>src\<close> has \<open>n\<close> characters or more.
\<close>

definition strncpy :: "string \<Rightarrow> string \<Rightarrow> nat \<Rightarrow> string" where
  "strncpy dest src n =
     take n (cstring src) @ replicate (n - strlen src) NUL @ drop n dest"

text \<open>
  \<^verbatim>\<open>strcmp(s1, s2)\<close> of the C library: walks both strings, stops at the first position where
  they differ or where both end, and returns the difference of the two characters there
  (as unsigned char).
\<close>

fun strcmp :: "string \<Rightarrow> string \<Rightarrow> int" where
  "strcmp [] [] = 0"
| "strcmp [] (y # ys) = - int (of_char y)"
| "strcmp (x # xs) [] = int (of_char x)"
| "strcmp (x # xs) (y # ys) =
     (if x \<noteq> y then int (of_char x) - int (of_char y)
      else if x = NUL then 0
      else strcmp xs ys)"

text \<open>
  Arduino's \<^verbatim>\<open>String(const char*)\<close> copies \<^verbatim>\<open>strlen\<close> characters of its argument;
  \<^verbatim>\<open>operator+\<close> is concatenation, \<^verbatim>\<open>length()\<close> the number of characters and
  \<^verbatim>\<open>c_str()\<close> the characters followed by a terminator. Allocation is taken to succeed.
\<close>

definition String :: "string \<Rightarrow> string" where
  "String p = take (strlen p) p"

definition c_str :: "string \<Rightarrow> string" where
  "c_str s = s @ [NUL]"

subsection \<open>The data model\<close>

datatype PlatformType = MCU | SBC

record IdentityBlock =
  hardware_id :: string
  public_key :: string
  genesis_hash :: string
  platform_type :: PlatformType

text \<open>
  The sizes the struct declares for its three arrays:
  \<^verbatim>\<open>char hardware_id[18]; char public_key[65]; char genesis_hash[65];\<close>
\<close>

definition IdentityBlock_sized :: "IdentityBlock \<Rightarrow> bool" where
  "IdentityBlock_sized block \<longleftrightarrow>
     length (hardware_id block) = 18 \<and>
     length (public_key block) = 65 \<and>
     length (genesis_hash block) = 65"

text \<open>
  The struct lays its members out in the order declared, and the three \<^verbatim>\<open>char\<close> arrays
  need no padding (18 + 65 + 65 = 148 bytes, a multiple of 4). A C string read through
  \<^verbatim>\<open>block->hardware_id\<close> that meets no NUL in the 18 cells therefore runs on into
  \<open>public_key\<close>, then into \<open>genesis_hash\<close>, then into the bytes of \<open>platform_type\<close>. The
  enumerators \<^verbatim>\<open>MCU\<close> = 0 and \<^verbatim>\<open>SBC\<close> = 1 are taken to be stored as a little-endian
  \<^verbatim>\<open>int\<close> of four bytes, as on the ESP32, so that such a read ends there at the latest.
\<close>

definition PlatformType_bytes :: "PlatformType \<Rightarrow> string" where
  "PlatformType_bytes t =
     (case t of MCU \<Rightarrow> [NUL, NUL, NUL, NUL] | SBC \<Rightarrow> [CHR 0x01, NUL, NUL, NUL])"

text \<open>
  What the pointers \<^verbatim>\<open>block->genesis_hash\<close>, \<^verbatim>\<open>block->public_key\<close> and
  \<^verbatim>\<open>block->hardware_id\<close> have before them: the array, then the members after it.
\<close>

definition genesis_hash_ptr :: "IdentityBlock \<Rightarrow> string" where
  "genesis_hash_ptr block = genesis_hash block @ PlatformType_bytes (platform_type block)"

definition public_key_ptr :: "IdentityBlock \<Rightarrow> string" where
  "public_key_ptr block = public_key block @ genesis_hash_ptr block"

definition hardware_id_ptr :: "IdentityBlock \<Rightarrow> string" where
  "hardware_id_ptr block = hardware_id block @ public_key_ptr block"

subsection \<open>bytesToHex\<close>

text \<open>\<^verbatim>\<open>const char hex_chars[] = "0123456789abcdef";\<close> (17 cells with the terminator).\<close>

definition hex_chars :: string where
  "hex_chars = ''0123456789abcdef'' @ [NUL]"

text \<open>
  The \<^verbatim>\<open>for\<close> loop of \<^verbatim>\<open>bytesToHex\<close>, from index \<open>i\<close> on; the loop counter is a
  \<^verbatim>\<open>size_t\<close>, taken here as a natural number.
\<close>

function bytesToHex_loop :: "u8 list \<Rightarrow> nat \<Rightarrow> nat \<Rightarrow> string \<Rightarrow> string" where
  "bytesToHex_loop data len i hex_out =
     (if i < len then
        bytesToHex_loop data len (i + 1)
          (hex_out[i * 2 := hex_chars ! unat (drop_bit 4 (data ! i) AND 0x0F),
                   i * 2 + 1 := hex_chars ! unat (data ! i AND 0x0F)])
      else hex_out)"
  by pat_completeness auto
termination
  by (relation "measure (\<lambda>(data, len, i, hex_out). len - i)") auto

definition bytesToHex :: "u8 list \<Rightarrow> nat \<Rightarrow> string \<Rightarrow> string" where
  "bytesToHex data len hex_out = (bytesToHex_loop data len 0 hex_out)[len * 2 := NUL]"

subsection \<open>The BLAKE3 wrapper\<close>

text \<open>
  The BLAKE3 library is external. Its hasher is a parameter \<open>H\<close> of the model:
  \<open>H input i\<close> is byte \<open>i\<close> of the output stream of a fresh hasher that has absorbed
  \<open>input\<close>, so that \<^verbatim>\<open>blake3_hasher_finalize(&hasher, output, n)\<close> writes
  \<open>H input 0, \<dots>, H input (n - 1)\<close>.
\<close>

type_synonym blake3_hasher = "string \<Rightarrow> nat \<Rightarrow> u8"

text \<open>
  Modelled from the spec: the macro \<^verbatim>\<open>BLAKE3_OUT_LEN\<close> comes from \<^verbatim>\<open>blake3.h\<close>, which is
  not among the sources; the spec fixes the digest of the hash primitive at 32 bytes.
\<close>

definition BLAKE3_OUT_LEN :: nat where
  "BLAKE3_OUT_LEN = 32"

text \<open>
  \<^verbatim>\<open>blake3_hash(input, input_len, output)\<close>: the hasher absorbs the first \<open>input_len\<close>
  bytes of \<open>input\<close> and fills \<open>output\<close>; the model returns what \<open>output\<close> holds.
\<close>

definition blake3_hash :: "blake3_hasher \<Rightarrow> string \<Rightarrow> nat \<Rightarrow> u8 list" where
  "blake3_hash H input input_len = map (H (take input_len input)) [0..<BLAKE3_OUT_LEN]"

subsection \<open>generateGenesisHash, createIdentityBlock, verifyIdentityBlock\<close>

text \<open>The local \<^verbatim>\<open>String preimage\<close> of \<^verbatim>\<open>generateGenesisHash\<close>.\<close>

definition preimage :: "string \<Rightarrow> string \<Rightarrow> string \<Rightarrow> string" where
  "preimage hardware_id' public_key' salt = String hardware_id' @ String public_key' @ String salt"

definition generateGenesisHash ::
  "blake3_hasher \<Rightarrow> string \<Rightarrow> string \<Rightarrow> string \<Rightarrow> string \<Rightarrow> string" where
  "generateGenesisHash H hardware_id' public_key' salt genesis_hash_out =
     (let pre = preimage hardware_id' public_key' salt;
          hash_bytes = blake3_hash H (c_str pre) (length pre)
      in bytesToHex hash_bytes 32 genesis_hash_out)"

definition createIdentityBlock ::
  "blake3_hasher \<Rightarrow> string \<Rightarrow> string \<Rightarrow> string \<Rightarrow> PlatformType \<Rightarrow> IdentityBlock \<Rightarrow> IdentityBlock" where
  "createIdentityBlock H hardware_id' public_key' salt platform_type' block =
     (let block = block\<lparr>hardware_id := strncpy (hardware_id block) hardware_id' 17\<rparr>;
          block = block\<lparr>hardware_id := (hardware_id block)[17 := NUL]\<rparr>;
          block = block\<lparr>public_key := strncpy (public_key block) public_key' 64\<rparr>;
          block = block\<lparr>public_key := (public_key block)[64 := NUL]\<rparr>;
          block = block\<lparr>genesis_hash :=
                    generateGenesisHash H hardware_id' public_key' salt (genesis_hash block)\<rparr>
      in block\<lparr>platform_type := platform_type'\<rparr>)"

text \<open>
  \<^verbatim>\<open>verifyIdentityBlock\<close> declares \<^verbatim>\<open>char expected_hash[65]\<close> without initialising it. The
  parameter \<open>expected_hash\<close> is the memory of that array when the function is entered: its 65
  cells with the content they happen to have, and after them whatever follows the array.
  The three arrays of the block are read through their pointers, so a member without
  terminator is read on into the members after it. The model returns the boolean together
  with the block and the memory of the local array as they are when the function returns.
\<close>

definition verifyIdentityBlock ::
  "blake3_hasher \<Rightarrow> IdentityBlock \<Rightarrow> string \<Rightarrow> string \<Rightarrow> bool \<times> IdentityBlock \<times> string" where
  "verifyIdentityBlock H block salt expected_hash =
     (let expected_hash =
            generateGenesisHash H (hardware_id_ptr block) (public_key_ptr block) salt
              expected_hash
      in (strcmp (genesis_hash_ptr block) expected_hash = 0, block, expected_hash))"

subsection \<open>Reference notions for the statements\<close>

text \<open>
  Lowercase hexadecimal, stated arithmetically: a byte is its value divided by 16 followed
  by its value modulo 16, each as a digit.
\<close>

definition hex_digit :: "nat \<Rightarrow> char" where
  "hex_digit n = ''0123456789abcdef'' ! n"

definition hex_byte :: "u8 \<Rightarrow> string" where
  "hex_byte b = [hex_digit (unat b div 16), hex_digit (unat b mod 16)]"

definition hex_encode :: "u8 list \<Rightarrow> string" where
  "hex_encode bs = concat (map hex_byte bs)"

text \<open>The 32-byte digest of a message under the hasher \<open>H\<close>.\<close>

definition digest :: "blake3_hasher \<Rightarrow> string \<Rightarrow> u8 list" where
  "digest H m = map (H m) [0..<32]"

text \<open>
  A concrete hasher, standing in for BLAKE3 wherever the model is evaluated at concrete
  inputs: a 32-bit polynomial checksum of the message seeds the output stream, and byte
  \<open>i\<close> of the stream is byte \<open>i mod 4\<close> of the seed plus \<open>i\<close>.
\<close>

definition byte_stream :: "32 word \<Rightarrow> nat \<Rightarrow> u8" where
  "byte_stream seed i = ucast (drop_bit (8 * (i mod 4)) seed) + of_nat i"

definition checksum_hasher :: blake3_hasher where
  "checksum_hasher m = byte_stream (fold (\<lambda>c a. 31 * a + of_nat (of_char c)) m 7)"

text \<open>
  A block whose arrays have the declared sizes and hold arbitrary earlier content, as the
  memory handed to \<^verbatim>\<open>createIdentityBlock\<close> may.
\<close>

definition stale_block :: IdentityBlock where
  "stale_block =
     \<lparr>hardware_id = replicate 18 (CHR ''?''), public_key = replicate 65 (CHR ''?''),
      genesis_hash = replicate 65 (CHR ''?''), platform_type = SBC\<rparr>"

section \<open>Auxiliary facts\<close>

subsection \<open>Hexadecimal digits and the loop of bytesToHex\<close>

declare bytesToHex_loop.simps [simp del]

lemma unat_lo_nibble: "unat ((b :: u8) AND 0x0F) = unat b mod 16"
proof -
  have "(15 :: u8) = mask 4" by (simp add: mask_eq_exp_minus_1)
  then have "b AND 0x0F = take_bit 4 b" by (simp only: take_bit_eq_mask)
  then have "unat (b AND 0x0F) = take_bit 4 (unat b)" by (simp only: unsigned_take_bit_eq)
  then show ?thesis by (simp only: take_bit_eq_mod) simp
qed

lemma unat_u8_less: "unat (b :: u8) < 256"
  using unsigned_less [of b, where ?'a = nat] by simp

lemma unat_hi_nibble: "unat (drop_bit 4 (b :: u8) AND 0x0F) = unat b div 16"
proof -
  have "unat b < 256" by (rule unat_u8_less)
  then have small: "unat b div 16 < 16" by simp
  have "unat (drop_bit 4 b) = drop_bit 4 (unat b)" by (simp only: unat_drop_bit_eq)
  then have "unat (drop_bit 4 b) = unat b div 16" by (simp only: drop_bit_eq_div) simp
  then show ?thesis using small by (simp only: unat_lo_nibble) simp
qed

lemma hex_chars_nth: "n < 16 \<Longrightarrow> hex_chars ! n = hex_digit n"
  unfolding hex_chars_def hex_digit_def by (subst nth_append) simp

lemma hex_pair_code:
  "[hex_chars ! unat (drop_bit 4 (b :: u8) AND 0x0F), hex_chars ! unat (b AND 0x0F)] = hex_byte b"
proof -
  have "unat b < 256" by (rule unat_u8_less)
  then have "unat b div 16 < 16" by simp
  then have "hex_chars ! unat (drop_bit 4 b AND 0x0F) = hex_digit (unat b div 16)"
    by (simp only: unat_hi_nibble hex_chars_nth)
  moreover have "hex_chars ! unat (b AND 0x0F) = hex_digit (unat b mod 16)"
    by (simp only: unat_lo_nibble) (simp add: hex_chars_nth)
  ultimately show ?thesis
    by (simp only: hex_byte_def)
qed

lemma length_hex_encode: "length (hex_encode bs) = 2 * length bs"
  by (induction bs) (simp_all add: hex_encode_def hex_byte_def)

lemma hex_encode_Cons: "hex_encode (b # bs) = hex_byte b @ hex_encode bs"
  by (simp add: hex_encode_def)

lemma nth_hex_encode:
  "i < length bs \<Longrightarrow>
   hex_encode bs ! (2 * i) = hex_digit (unat (bs ! i) div 16) \<and>
   hex_encode bs ! (2 * i + 1) = hex_digit (unat (bs ! i) mod 16)"
proof (induction bs arbitrary: i)
  case Nil
  then show ?case by simp
next
  case (Cons b bs)
  show ?case
  proof (cases i)
    case 0
    then show ?thesis by (simp add: hex_encode_Cons hex_byte_def)
  next
    case (Suc j)
    with Cons.prems have "j < length bs" by simp
    from Cons.IH [OF this] Suc show ?thesis
      by (simp add: hex_encode_Cons hex_byte_def)
  qed
qed

lemma bytesToHex_loop_eq:
  "i \<le> len \<Longrightarrow> len \<le> length data \<Longrightarrow> 2 * len \<le> length buf \<Longrightarrow>
   bytesToHex_loop data len i buf =
     take (2 * i) buf @ hex_encode (take (len - i) (drop i data)) @ drop (2 * len) buf"
proof (induction data len i buf rule: bytesToHex_loop.induct)
  case (1 data len i hex_out)
  show ?case
  proof (cases "i < len")
    case False
    with "1.prems" have "i = len" by simp
    then show ?thesis
      by (subst bytesToHex_loop.simps) (simp add: hex_encode_def)
  next
    case True
    define a where "a = hex_chars ! unat (drop_bit 4 (data ! i) AND 0x0F)"
    define b where "b = hex_chars ! unat (data ! i AND 0x0F)"
    define buf' where "buf' = hex_out[i * 2 := a, i * 2 + 1 := b]"
    have ab: "[a, b] = hex_byte (data ! i)"
      unfolding a_def b_def by (rule hex_pair_code)
    have IH: "bytesToHex_loop data len (i + 1) buf' =
        take (2 * (i + 1)) buf' @ hex_encode (take (len - (i + 1)) (drop (i + 1) data)) @ drop (2 * len) buf'"
      using "1.IH" [OF True] True "1.prems" unfolding a_def b_def buf'_def by simp
    have bound: "2 * i + 1 < length hex_out" using True "1.prems" by simp
    have tk: "take (2 * (i + 1)) buf' = take (2 * i) hex_out @ [a, b]"
      using bound by (simp add: buf'_def list_eq_iff_nth_eq nth_append nth_list_update min_def less_Suc_eq)
    have dr: "drop (2 * len) buf' = drop (2 * len) hex_out"
      using True by (simp add: buf'_def)
    have dt: "take (len - i) (drop i data) = data ! i # take (len - (i + 1)) (drop (i + 1) data)"
      using True "1.prems" by (simp add: take_Suc_conv_app_nth Cons_nth_drop_Suc [symmetric] Suc_diff_Suc[symmetric] del: Suc_diff_Suc)
    have "bytesToHex_loop data len i hex_out = bytesToHex_loop data len (i + 1) buf'"
      using True by (subst bytesToHex_loop.simps) (simp add: a_def b_def buf'_def)
    then show ?thesis
      by (simp only: IH tk dr dt hex_encode_Cons ab [symmetric]) simp
  qed
qed

subsection \<open>The result of bytesToHex, C strings, strcmp\<close>

lemma bytesToHex_eq:
  assumes "len \<le> length data" "2 * len + 1 \<le> length buf"
  shows "bytesToHex data len buf = hex_encode (take len data) @ NUL # drop (2 * len + 1) buf"
proof -
  have loop: "bytesToHex_loop data len 0 buf = hex_encode (take len data) @ drop (2 * len) buf"
    using assms bytesToHex_loop_eq [of 0 len data buf] by simp
  have len: "length (hex_encode (take len data)) = 2 * len"
    using assms by (simp add: length_hex_encode)
  have "drop (2 * len) buf \<noteq> []" using assms by simp
  then obtain c cs where cs: "drop (2 * len) buf = c # cs" by (cases "drop (2 * len) buf") auto
  then have "cs = drop (2 * len + 1) buf"
    by (metis drop_drop add.commute drop0 drop_Suc_Cons One_nat_def plus_1_eq_Suc)
  with cs loop len show ?thesis
    by (simp add: bytesToHex_def list_update_append mult.commute)
qed

lemma hex_digit_in_table: "n < 16 \<Longrightarrow> hex_digit n \<in> set ''0123456789abcdef''"
  unfolding hex_digit_def by (rule nth_mem) simp

lemma hex_digit_inj: "m < 16 \<Longrightarrow> n < 16 \<Longrightarrow> hex_digit m = hex_digit n \<Longrightarrow> m = n"
proof -
  assume "m < 16" "n < 16" "hex_digit m = hex_digit n"
  moreover have "distinct ''0123456789abcdef''" by simp
  ultimately show "m = n"
    unfolding hex_digit_def
    using nth_eq_iff_index_eq [of "''0123456789abcdef''" m n] by simp
qed

lemma hex_byte_inj: "hex_byte a = hex_byte b \<Longrightarrow> a = b"
proof -
  assume eq: "hex_byte a = hex_byte b"
  have a: "unat a div 16 < 16" "unat a mod 16 < 16" using unat_u8_less [of a] by simp_all
  have b: "unat b div 16 < 16" "unat b mod 16 < 16" using unat_u8_less [of b] by simp_all
  from eq have "hex_digit (unat a div 16) = hex_digit (unat b div 16)"
    and "hex_digit (unat a mod 16) = hex_digit (unat b mod 16)"
    by (simp_all add: hex_byte_def)
  then have "unat a div 16 = unat b div 16" "unat a mod 16 = unat b mod 16"
    using a b by (blast intro: hex_digit_inj)+
  then have "unat a = unat b" by (metis div_mult_mod_eq)
  then show "a = b" by (rule unsigned_word_eqI)
qed

lemma hex_encode_inj: "length xs = length ys \<Longrightarrow> hex_encode xs = hex_encode ys \<Longrightarrow> xs = ys"
proof (induction xs ys rule: list_induct2)
  case Nil
  then show ?case by simp
next
  case (Cons x xs y ys)
  from Cons.prems have "hex_byte x = hex_byte y \<and> hex_encode xs = hex_encode ys"
    by (simp add: hex_encode_Cons hex_byte_def)
  with Cons.IH show ?case by (auto dest: hex_byte_inj)
qed

lemma set_hex_encode: "set (hex_encode bs) \<subseteq> set ''0123456789abcdef''"
proof (induction bs)
  case Nil
  then show ?case by (simp add: hex_encode_def)
next
  case (Cons b bs)
  have "unat b div 16 < 16" "unat b mod 16 < 16" using unat_u8_less [of b] by simp_all
  then have "set (hex_byte b) \<subseteq> set ''0123456789abcdef''"
    using hex_digit_in_table unfolding hex_byte_def by (simp only: list.set) blast
  with Cons.IH show ?case by (simp only: hex_encode_Cons set_append) blast
qed

lemma NUL_notin_hex_encode: "NUL \<notin> set (hex_encode bs)"
  using set_hex_encode [of bs] by auto

lemma cstring_append_NUL: "NUL \<notin> set xs \<Longrightarrow> cstring (xs @ NUL # ys) = xs"
  by (auto simp: cstring_def takeWhile_tail)

lemma cstring_no_NUL: "NUL \<notin> set xs \<Longrightarrow> cstring xs = xs"
  by (auto simp: cstring_def)

lemma cstring_append_terminated: "NUL \<in> set xs \<Longrightarrow> cstring (xs @ ys) = cstring xs"
  by (simp add: cstring_def)

lemma cstring_append_unterminated: "NUL \<notin> set xs \<Longrightarrow> cstring (xs @ ys) = xs @ cstring ys"
  unfolding cstring_def by (rule takeWhile_append2) auto

lemma NUL_notin_cstring: "NUL \<notin> set (cstring p)"
  by (auto simp: cstring_def dest: set_takeWhileD)

lemma String_eq_cstring: "String p = cstring p"
  by (simp add: String_def strlen_def cstring_def takeWhile_eq_take [symmetric])

lemma of_char_eq_0_iff: "of_char c = (0 :: nat) \<longleftrightarrow> c = NUL"
  using of_char_eq_iff [of c NUL, where ?'a = nat] by simp

lemma strcmp_eq_0_iff: "strcmp s1 s2 = 0 \<longleftrightarrow> cstring s1 = cstring s2"
  by (induction s1 s2 rule: strcmp.induct) (auto simp: cstring_def of_char_eq_0_iff)

subsection \<open>generateGenesisHash and the copies made by createIdentityBlock\<close>

lemma blake3_hash_c_str: "blake3_hash H (c_str pre) (length pre) = digest H pre"
  by (simp add: blake3_hash_def c_str_def digest_def BLAKE3_OUT_LEN_def)

lemma length_digest: "length (digest H m) = 32"
  by (simp add: digest_def)

lemma preimage_eq: "preimage h p s = cstring h @ cstring p @ cstring s"
  by (simp add: preimage_def String_eq_cstring)

lemma generateGenesisHash_eq:
  assumes "65 \<le> length out"
  shows "generateGenesisHash H h p s out =
           hex_encode (digest H (preimage h p s)) @ NUL # drop 65 out"
  using assms bytesToHex_eq [of 32 "digest H (preimage h p s)" out]
  by (simp add: generateGenesisHash_def Let_def blake3_hash_c_str length_digest)

lemma length_bytesToHex_loop: "length (bytesToHex_loop data len i buf) = length buf"
proof (induction data len i buf rule: bytesToHex_loop.induct)
  case (1 data len i hex_out)
  then show ?case
    by (subst bytesToHex_loop.simps) simp
qed

lemma length_generateGenesisHash: "length (generateGenesisHash H h p s out) = length out"
  by (simp add: generateGenesisHash_def Let_def bytesToHex_def length_bytesToHex_loop)

lemma drop_generateGenesisHash: "drop 65 (generateGenesisHash H h p s out) = drop 65 out"
proof (cases "65 \<le> length out")
  case True
  then show ?thesis
    by (simp add: generateGenesisHash_eq length_hex_encode length_digest)
next
  case False
  then show ?thesis
    by (simp add: length_generateGenesisHash)
qed

lemma cstring_generateGenesisHash:
  "65 \<le> length out \<Longrightarrow>
   cstring (generateGenesisHash H h p s out) = hex_encode (digest H (preimage h p s))"
  by (simp add: generateGenesisHash_eq cstring_append_NUL NUL_notin_hex_encode)

lemma cstring_strncpy_terminated:
  "cstring ((strncpy dest src n)[n := NUL]) = take n (cstring src)"
proof (cases "strlen src < n")
  case True
  then have "strncpy dest src n = cstring src @ NUL # replicate (n - strlen src - 1) NUL @ drop n dest"
    by (simp add: strncpy_def strlen_def replicate_app_Cons_same Cons_replicate_eq
        flip: replicate_Suc)
  moreover have "cstring ((cstring src @ NUL # zs)[n := NUL]) = cstring src" for zs
    using True by (simp add: strlen_def list_update_append cstring_append_NUL NUL_notin_cstring
        split: nat.split)
  ultimately show ?thesis using True by (simp add: strlen_def)
next
  case False
  then have eq: "strncpy dest src n = take n (cstring src) @ drop n dest"
    and len: "length (take n (cstring src)) = n"
    by (simp_all add: strncpy_def strlen_def)
  have no: "NUL \<notin> set (take n (cstring src))"
    using NUL_notin_cstring [of src] by (auto dest: in_set_takeD)
  show ?thesis
  proof (cases "drop n dest")
    case Nil
    with eq len no show ?thesis by (simp add: cstring_no_NUL list_update_beyond)
  next
    case (Cons c cs)
    with eq len no show ?thesis
      by (simp add: list_update_append cstring_append_NUL)
  qed
qed

lemma length_strncpy: "n \<le> length dest \<Longrightarrow> length (strncpy dest src n) = length dest"
  by (simp add: strncpy_def strlen_def)

lemma NUL_in_strncpy_terminated:
  "n < length dest \<Longrightarrow> NUL \<in> set ((strncpy dest src n)[n := NUL])"
  by (rule set_update_memI) (simp add: length_strncpy)

lemma createIdentityBlock_fields:
  "hardware_id (createIdentityBlock H h p s t block) = (strncpy (hardware_id block) h 17)[17 := NUL]"
  "public_key (createIdentityBlock H h p s t block) = (strncpy (public_key block) p 64)[64 := NUL]"
  "genesis_hash (createIdentityBlock H h p s t block) = generateGenesisHash H h p s (genesis_hash block)"
  "platform_type (createIdentityBlock H h p s t block) = t"
  by (simp_all add: createIdentityBlock_def Let_def)

lemma createIdentityBlock_hash_of_arguments:
  "65 \<le> length (genesis_hash block) \<Longrightarrow>
   cstring (genesis_hash (createIdentityBlock H h p s t block)) =
     hex_encode (digest H (cstring h @ cstring p @ cstring s))"
  by (simp add: createIdentityBlock_fields cstring_generateGenesisHash preimage_eq)

subsection \<open>Reading the arrays of a block through their pointers\<close>

lemma cstring_hardware_id_ptr:
  "NUL \<in> set (hardware_id block) \<Longrightarrow> cstring (hardware_id_ptr block) = cstring (hardware_id block)"
  by (simp add: hardware_id_ptr_def cstring_append_terminated)

lemma cstring_public_key_ptr:
  "NUL \<in> set (public_key block) \<Longrightarrow> cstring (public_key_ptr block) = cstring (public_key block)"
  by (simp add: public_key_ptr_def cstring_append_terminated)

lemma cstring_genesis_hash_ptr_eq_iff:
  assumes "length (genesis_hash block) = 65" and "length x = 64"
  shows "cstring (genesis_hash_ptr block) = x \<longleftrightarrow> cstring (genesis_hash block) = x"
proof (cases "NUL \<in> set (genesis_hash block)")
  case True
  then show ?thesis
    by (simp add: genesis_hash_ptr_def cstring_append_terminated)
next
  case False
  then have "length (cstring (genesis_hash_ptr block)) \<noteq> length x"
    and "length (cstring (genesis_hash block)) \<noteq> length x"
    using assms by (simp_all add: genesis_hash_ptr_def cstring_append_unterminated cstring_no_NUL)
  then show ?thesis by blast
qed

lemma verifyIdentityBlock_reads:
  assumes "65 \<le> length expected_hash"
  shows "fst (verifyIdentityBlock H block salt expected_hash) \<longleftrightarrow>
           cstring (genesis_hash_ptr block) =
           hex_encode (digest H
             (cstring (hardware_id_ptr block) @ cstring (public_key_ptr block) @ cstring salt))"
  using assms
  by (simp add: verifyIdentityBlock_def Let_def strcmp_eq_0_iff cstring_generateGenesisHash
      preimage_eq)

text \<open>
  A hardware id array without terminator is read on into the public key: the string found
  at \<^verbatim>\<open>block->hardware_id\<close> is then the 18 characters followed by the public key.
\<close>

lemma unterminated_hardware_id_runs_on:
  "cstring (hardware_id_ptr
     \<lparr>hardware_id = replicate 18 (CHR ''A''), public_key = replicate 64 (CHR ''0'') @ [NUL],
      genesis_hash = replicate 64 (CHR ''f'') @ [NUL], platform_type = MCU\<rparr>) =
   replicate 18 (CHR ''A'') @ replicate 64 (CHR ''0'')"
  by code_simp

section \<open>The claims\<close>

subsection \<open>C1\<close>

text \<open>
  C1. Whatever the three arguments and the hasher, \<open>generateGenesisHash\<close> writes what
  \<open>bytesToHex\<close> makes of the 32-byte digest of the concatenation of the three C strings in
  the order hardware id, public key, salt; the C string it leaves in a buffer of at least
  65 cells is the lowercase hexadecimal encoding of that digest.
\<close>

theorem generateGenesisHash_hex_of_hash:
  assumes "65 \<le> length genesis_hash_out"
  shows "generateGenesisHash H h p s genesis_hash_out =
           bytesToHex (digest H (cstring h @ cstring p @ cstring s)) 32 genesis_hash_out \<and>
         cstring (generateGenesisHash H h p s genesis_hash_out) =
           hex_encode (digest H (cstring h @ cstring p @ cstring s))"
proof -
  have "generateGenesisHash H h p s genesis_hash_out =
          bytesToHex (digest H (preimage h p s)) 32 genesis_hash_out"
    by (simp add: generateGenesisHash_def Let_def blake3_hash_c_str)
  moreover have "cstring (generateGenesisHash H h p s genesis_hash_out) =
          hex_encode (digest H (preimage h p s))"
    using assms by (rule cstring_generateGenesisHash)
  ultimately show ?thesis
    by (simp only: preimage_eq)
qed

text \<open>An instance: the golden vector of the protocol under the checksum hasher.\<close>

theorem generateGenesisHash_hex_of_hash_witness:
  "65 \<le> length (replicate 65 (CHR ''?'')) \<and>
   cstring (generateGenesisHash checksum_hasher ''AA:BB:CC:DD:EE:FF'' (replicate 64 (CHR ''0''))
      ''test-salt'' (replicate 65 (CHR ''?''))) =
     hex_encode (digest checksum_hasher
       (''AA:BB:CC:DD:EE:FF'' @ replicate 64 (CHR ''0'') @ ''test-salt'')) \<and>
   hex_encode (digest checksum_hasher
       (''AA:BB:CC:DD:EE:FF'' @ replicate 64 (CHR ''0'') @ ''test-salt'')) =
     ''9e016b1ba2056f1fa6097323aa0d7727ae117b2bb2157f2fb6198333ba1d8737''"
proof -
  have room: "65 \<le> length (replicate 65 (CHR ''?''))" by simp
  have strings: "cstring ''AA:BB:CC:DD:EE:FF'' = ''AA:BB:CC:DD:EE:FF''"
    "cstring (replicate 64 (CHR ''0'')) = replicate 64 (CHR ''0'')"
    "cstring ''test-salt'' = ''test-salt''"
    by (simp_all add: cstring_def)
  have hex: "hex_encode (digest checksum_hasher
       (''AA:BB:CC:DD:EE:FF'' @ replicate 64 (CHR ''0'') @ ''test-salt'')) =
     ''9e016b1ba2056f1fa6097323aa0d7727ae117b2bb2157f2fb6198333ba1d8737''"
    by code_simp
  from generateGenesisHash_hex_of_hash [OF room, where H = checksum_hasher
      and h = "''AA:BB:CC:DD:EE:FF''" and p = "replicate 64 (CHR ''0'')" and s = "''test-salt''"]
  show ?thesis
    unfolding strings using room hex by blast
qed

subsection \<open>C2\<close>

text \<open>
  C2. Verification soundness: when the hardware id has at most 17 characters and the public
  key at most 64, the block that \<open>createIdentityBlock\<close> fills verifies under the same salt,
  whatever the block and the local array of \<open>verifyIdentityBlock\<close> held before.
\<close>

theorem verify_created_block:
  assumes "strlen h \<le> 17" and "strlen p \<le> 64"
    and "IdentityBlock_sized block" and "65 \<le> length expected_hash"
  shows "fst (verifyIdentityBlock H (createIdentityBlock H h p s t block) s expected_hash)"
proof -
  let ?b = "createIdentityBlock H h p s t block"
  have hw: "cstring (hardware_id ?b) = cstring h"
    using assms(1) by (simp add: createIdentityBlock_fields cstring_strncpy_terminated strlen_def)
  have pk: "cstring (public_key ?b) = cstring p"
    using assms(2) by (simp add: createIdentityBlock_fields cstring_strncpy_terminated strlen_def)
  have hw_ptr: "cstring (hardware_id_ptr ?b) = cstring h"
    using assms(3) hw
    by (simp add: cstring_hardware_id_ptr createIdentityBlock_fields NUL_in_strncpy_terminated
        IdentityBlock_sized_def)
  have pk_ptr: "cstring (public_key_ptr ?b) = cstring p"
    using assms(3) pk
    by (simp add: cstring_public_key_ptr createIdentityBlock_fields NUL_in_strncpy_terminated
        IdentityBlock_sized_def)
  have "genesis_hash ?b = hex_encode (digest H (preimage h p s)) @ NUL # drop 65 (genesis_hash block)"
    using assms(3)
    by (simp add: createIdentityBlock_fields generateGenesisHash_eq IdentityBlock_sized_def)
  then have stored: "cstring (genesis_hash_ptr ?b) = hex_encode (digest H (preimage h p s))"
    by (simp add: genesis_hash_ptr_def cstring_append_NUL NUL_notin_hex_encode)
  show ?thesis
    using assms(4)
    by (simp only: verifyIdentityBlock_reads stored hw_ptr pk_ptr preimage_eq)
qed

text \<open>An instance: the golden vector, written into a block with stale content.\<close>

theorem verify_created_block_witness:
  "strlen ''AA:BB:CC:DD:EE:FF'' \<le> 17 \<and> strlen (replicate 64 (CHR ''0'')) \<le> 64 \<and>
   IdentityBlock_sized stale_block \<and> 65 \<le> length (replicate 65 (CHR ''?'')) \<and>
   fst (verifyIdentityBlock checksum_hasher
          (createIdentityBlock checksum_hasher ''AA:BB:CC:DD:EE:FF'' (replicate 64 (CHR ''0''))
             ''test-salt'' MCU stale_block)
          ''test-salt'' (replicate 65 (CHR ''?'')))"
proof -
  have hw: "strlen ''AA:BB:CC:DD:EE:FF'' \<le> 17" by (simp add: strlen_def cstring_def)
  have pk: "strlen (replicate 64 (CHR ''0'')) \<le> 64" by (simp add: strlen_def cstring_def)
  have sized: "IdentityBlock_sized stale_block"
    by (simp add: IdentityBlock_sized_def stale_block_def)
  have local: "65 \<le> length (replicate 65 (CHR ''?''))" by simp
  from verify_created_block [OF hw pk sized local] hw pk sized local show ?thesis
    by blast
qed

subsection \<open>C3\<close>

text \<open>
  C3. The record invariant says that the genesis hash stored by \<open>createIdentityBlock\<close> is
  the hexadecimal digest of the stored hardware id, the stored public key and the salt,
  also for arguments wider than the fields. The code breaks it there: for a hardware id of
  20 characters the block holds the first 17 characters beside the hash of all 20, the hash
  of the stored fields is another one, and \<open>verifyIdentityBlock\<close> rejects the block under
  the salt it was created with.
\<close>

theorem createIdentityBlock_oversized_breaks_invariant:
  "cstring (hardware_id (createIdentityBlock checksum_hasher ''AA:BB:CC:DD:EE:FF:00''
              (replicate 64 (CHR ''0'')) ''test-salt'' MCU stale_block)) = ''AA:BB:CC:DD:EE:FF'' \<and>
   cstring (genesis_hash (createIdentityBlock checksum_hasher ''AA:BB:CC:DD:EE:FF:00''
              (replicate 64 (CHR ''0'')) ''test-salt'' MCU stale_block)) =
     ''2a309e432e34a2473238a64b363caa4f3a40ae533e44b2574248b65b464cba5f'' \<and>
   hex_encode (digest checksum_hasher
       (cstring (hardware_id (createIdentityBlock checksum_hasher ''AA:BB:CC:DD:EE:FF:00''
                   (replicate 64 (CHR ''0'')) ''test-salt'' MCU stale_block)) @
        cstring (public_key (createIdentityBlock checksum_hasher ''AA:BB:CC:DD:EE:FF:00''
                   (replicate 64 (CHR ''0'')) ''test-salt'' MCU stale_block)) @
        cstring ''test-salt'')) =
     ''9e016b1ba2056f1fa6097323aa0d7727ae117b2bb2157f2fb6198333ba1d8737'' \<and>
   cstring (genesis_hash (createIdentityBlock checksum_hasher ''AA:BB:CC:DD:EE:FF:00''
              (replicate 64 (CHR ''0'')) ''test-salt'' MCU stale_block)) \<noteq>
     hex_encode (digest checksum_hasher
       (cstring (hardware_id (createIdentityBlock checksum_hasher ''AA:BB:CC:DD:EE:FF:00''
                   (replicate 64 (CHR ''0'')) ''test-salt'' MCU stale_block)) @
        cstring (public_key (createIdentityBlock checksum_hasher ''AA:BB:CC:DD:EE:FF:00''
                   (replicate 64 (CHR ''0'')) ''test-salt'' MCU stale_block)) @
        cstring ''test-salt'')) \<and>
   \<not> fst (verifyIdentityBlock checksum_hasher
           (createIdentityBlock checksum_hasher ''AA:BB:CC:DD:EE:FF:00''
              (replicate 64 (CHR ''0'')) ''test-salt'' MCU stale_block)
           ''test-salt'' (replicate 65 (CHR ''?'')))"
  by code_simp

text \<open>
  For arguments that fit the fields the stored hash is that of the stored fields; for all
  arguments it is the hash of the strings as supplied
  (lemma \<open>createIdentityBlock_hash_of_arguments\<close>).
\<close>

lemma created_hash_binds_stored_fields:
  assumes "strlen h \<le> 17" and "strlen p \<le> 64" and "65 \<le> length (genesis_hash block)"
  shows "cstring (genesis_hash (createIdentityBlock H h p s t block)) =
           hex_encode (digest H
             (cstring (hardware_id (createIdentityBlock H h p s t block)) @
              cstring (public_key (createIdentityBlock H h p s t block)) @
              cstring s))"
proof -
  let ?b = "createIdentityBlock H h p s t block"
  have hw: "cstring (hardware_id ?b) = cstring h"
    using assms(1) by (simp add: createIdentityBlock_fields cstring_strncpy_terminated strlen_def)
  have pk: "cstring (public_key ?b) = cstring p"
    using assms(2) by (simp add: createIdentityBlock_fields cstring_strncpy_terminated strlen_def)
  have stored: "cstring (genesis_hash ?b) = hex_encode (digest H (preimage h p s))"
    using assms(3) by (simp add: createIdentityBlock_fields cstring_generateGenesisHash)
  show ?thesis
    by (simp only: hw pk stored preimage_eq)
qed

subsection \<open>C4\<close>

text \<open>
  C4. \<open>createIdentityBlock\<close> truncates without reporting anything: the C string left in the
  \<open>hardware_id\<close> field is the first 17 characters of the supplied hardware id (all of it when
  shorter), the one in \<open>public_key\<close> the first 64 characters of the supplied public key.
\<close>

theorem createIdentityBlock_truncates:
  "cstring (hardware_id (createIdentityBlock H h p s t block)) = take 17 (cstring h) \<and>
   cstring (public_key (createIdentityBlock H h p s t block)) = take 64 (cstring p)"
  by (simp add: createIdentityBlock_fields cstring_strncpy_terminated)

subsection \<open>C5\<close>

text \<open>
  C5. For a record whose arrays have the declared sizes and whose hardware id and public
  key are terminated strings, \<open>verifyIdentityBlock\<close> answers true exactly when the stored
  genesis hash and the hash string recomputed by \<open>generateGenesisHash\<close> from the stored
  hardware id, the stored public key and the supplied salt are the same string; otherwise
  it answers false. The answer does not depend on what the local array held, nor on the
  buffer used for the recomputation. (Without a terminator in the hardware id or the public
  key there is no stored string: the read runs on into the next member, lemma
  \<open>verifyIdentityBlock_reads\<close>.)
\<close>

theorem verifyIdentityBlock_exact_match:
  assumes "IdentityBlock_sized block"
    and "NUL \<in> set (hardware_id block)" and "NUL \<in> set (public_key block)"
    and "65 \<le> length expected_hash" and "65 \<le> length buf"
  shows "fst (verifyIdentityBlock H block salt expected_hash) \<longleftrightarrow>
           cstring (genesis_hash block) =
           cstring (generateGenesisHash H (hardware_id block) (public_key block) salt buf)"
proof -
  let ?hex = "hex_encode (digest H
      (cstring (hardware_id block) @ cstring (public_key block) @ cstring salt))"
  have width: "length ?hex = 64"
    by (simp add: length_hex_encode length_digest)
  have "fst (verifyIdentityBlock H block salt expected_hash) \<longleftrightarrow>
          cstring (genesis_hash_ptr block) = ?hex"
    using assms(2-4)
    by (simp add: verifyIdentityBlock_reads cstring_hardware_id_ptr cstring_public_key_ptr)
  also have "\<dots> \<longleftrightarrow> cstring (genesis_hash block) = ?hex"
    using assms(1) width
    by (intro cstring_genesis_hash_ptr_eq_iff) (simp_all add: IdentityBlock_sized_def)
  also have "?hex =
      cstring (generateGenesisHash H (hardware_id block) (public_key block) salt buf)"
    using assms(5) by (simp add: cstring_generateGenesisHash preimage_eq)
  finally show ?thesis .
qed

text \<open>Two instances: a block whose stored hash matches, and the same block with the hash in upper case.\<close>

theorem verifyIdentityBlock_exact_match_witness:
  "IdentityBlock_sized
     \<lparr>hardware_id = ''AA:BB:CC:DD:EE:FF'' @ [NUL],
      public_key = replicate 64 (CHR ''0'') @ [NUL],
      genesis_hash = ''9e016b1ba2056f1fa6097323aa0d7727ae117b2bb2157f2fb6198333ba1d8737'' @ [NUL],
      platform_type = MCU\<rparr> \<and>
   NUL \<in> set (''AA:BB:CC:DD:EE:FF'' @ [NUL]) \<and>
   NUL \<in> set (replicate 64 (CHR ''0'') @ [NUL]) \<and>
   65 \<le> length (replicate 65 (CHR ''?'')) \<and> 65 \<le> length (replicate 80 NUL) \<and>
   fst (verifyIdentityBlock checksum_hasher
     \<lparr>hardware_id = ''AA:BB:CC:DD:EE:FF'' @ [NUL],
      public_key = replicate 64 (CHR ''0'') @ [NUL],
      genesis_hash = ''9e016b1ba2056f1fa6097323aa0d7727ae117b2bb2157f2fb6198333ba1d8737'' @ [NUL],
      platform_type = MCU\<rparr> ''test-salt'' (replicate 65 (CHR ''?''))) \<and>
   \<not> fst (verifyIdentityBlock checksum_hasher
     \<lparr>hardware_id = ''AA:BB:CC:DD:EE:FF'' @ [NUL],
      public_key = replicate 64 (CHR ''0'') @ [NUL],
      genesis_hash = ''9E016B1BA2056F1FA6097323AA0D7727AE117B2BB2157F2FB6198333BA1D8737'' @ [NUL],
      platform_type = MCU\<rparr> ''test-salt'' (replicate 65 (CHR ''?'')))"
proof -
  let ?ok = "\<lparr>hardware_id = ''AA:BB:CC:DD:EE:FF'' @ [NUL],
      public_key = replicate 64 (CHR ''0'') @ [NUL],
      genesis_hash = ''9e016b1ba2056f1fa6097323aa0d7727ae117b2bb2157f2fb6198333ba1d8737'' @ [NUL],
      platform_type = MCU\<rparr>"
  let ?tampered = "\<lparr>hardware_id = ''AA:BB:CC:DD:EE:FF'' @ [NUL],
      public_key = replicate 64 (CHR ''0'') @ [NUL],
      genesis_hash = ''9E016B1BA2056F1FA6097323AA0D7727AE117B2BB2157F2FB6198333BA1D8737'' @ [NUL],
      platform_type = MCU\<rparr>"
  have sized: "IdentityBlock_sized ?ok" "IdentityBlock_sized ?tampered"
    by (simp_all add: IdentityBlock_sized_def)
  have hw: "NUL \<in> set (''AA:BB:CC:DD:EE:FF'' @ [NUL])" by simp
  have pk: "NUL \<in> set (replicate 64 (CHR ''0'') @ [NUL])" by simp
  have hw_ok: "NUL \<in> set (hardware_id ?ok)" and pk_ok: "NUL \<in> set (public_key ?ok)"
    and hw_t: "NUL \<in> set (hardware_id ?tampered)" and pk_t: "NUL \<in> set (public_key ?tampered)"
    by simp_all
  have local: "65 \<le> length (replicate 65 (CHR ''?''))" by simp
  have other: "65 \<le> length (replicate 80 NUL)" by simp
  have same: "cstring (genesis_hash ?ok) =
      cstring (generateGenesisHash checksum_hasher (hardware_id ?ok) (public_key ?ok)
                 ''test-salt'' (replicate 80 NUL))"
    by code_simp
  have differs: "cstring (genesis_hash ?tampered) \<noteq>
      cstring (generateGenesisHash checksum_hasher (hardware_id ?tampered) (public_key ?tampered)
                 ''test-salt'' (replicate 80 NUL))"
    by code_simp
  from verifyIdentityBlock_exact_match [OF sized(1) hw_ok pk_ok local other,
      where H = checksum_hasher and salt = "''test-salt''"] same
  have accepted: "fst (verifyIdentityBlock checksum_hasher ?ok ''test-salt''
      (replicate 65 (CHR ''?'')))"
    by blast
  from verifyIdentityBlock_exact_match [OF sized(2) hw_t pk_t local other,
      where H = checksum_hasher and salt = "''test-salt''"] differs
  have rejected: "\<not> fst (verifyIdentityBlock checksum_hasher ?tampered ''test-salt''
      (replicate 65 (CHR ''?'')))"
    by blast
  from sized(1) hw pk local other accepted rejected show ?thesis
    by blast
qed

subsection \<open>C6\<close>

text \<open>
  C6. Given \<open>len\<close> bytes and a buffer of at least \<open>2 * len + 1\<close> cells, \<open>bytesToHex\<close> leaves a
  C string of exactly \<open>2 * len\<close> characters: byte \<open>i\<close> gives the characters \<open>2 * i\<close> and
  \<open>2 * i + 1\<close>, the digits of its high and of its low nibble in the table
  \<open>0123456789abcdef\<close>; the terminator is at \<open>2 * len\<close>; every character is a lowercase
  hexadecimal digit; 32 bytes give 64 characters.
\<close>

theorem bytesToHex_lowercase_hex:
  assumes "len \<le> length data" and "2 * len + 1 \<le> length hex_out"
  shows "length (cstring (bytesToHex data len hex_out)) = 2 * len \<and>
         (\<forall>i<len. bytesToHex data len hex_out ! (2 * i) =
                     ''0123456789abcdef'' ! (unat (data ! i) div 16) \<and>
                   bytesToHex data len hex_out ! (2 * i + 1) =
                     ''0123456789abcdef'' ! (unat (data ! i) mod 16)) \<and>
         bytesToHex data len hex_out ! (2 * len) = NUL \<and>
         set (cstring (bytesToHex data len hex_out)) \<subseteq> set ''0123456789abcdef'' \<and>
         (len = 32 \<longrightarrow> length (cstring (bytesToHex data len hex_out)) = 64)"
proof -
  let ?hex = "hex_encode (take len data)"
  have eq: "bytesToHex data len hex_out = ?hex @ NUL # drop (2 * len + 1) hex_out"
    using assms by (rule bytesToHex_eq)
  have len: "length ?hex = 2 * len"
    using assms by (simp add: length_hex_encode)
  have cs: "cstring (bytesToHex data len hex_out) = ?hex"
    by (simp add: eq cstring_append_NUL NUL_notin_hex_encode)
  have digits: "bytesToHex data len hex_out ! (2 * i) =
                  ''0123456789abcdef'' ! (unat (data ! i) div 16) \<and>
                bytesToHex data len hex_out ! (2 * i + 1) =
                  ''0123456789abcdef'' ! (unat (data ! i) mod 16)" if "i < len" for i
  proof -
    from that assms have "i < length (take len data)" by simp
    from nth_hex_encode [OF this] that len show ?thesis
      by (simp add: eq nth_append hex_digit_def)
  qed
  have terminator: "bytesToHex data len hex_out ! (2 * len) = NUL"
    using len by (simp add: eq nth_append)
  have count: "length (cstring (bytesToHex data len hex_out)) = 2 * len"
    using cs len by simp
  have charset: "set (cstring (bytesToHex data len hex_out)) \<subseteq> set ''0123456789abcdef''"
    unfolding cs by (rule set_hex_encode)
  have digest_width: "len = 32 \<longrightarrow> length (cstring (bytesToHex data len hex_out)) = 64"
    using count by auto
  from count digits terminator charset digest_width show ?thesis
    by blast
qed

text \<open>An instance: 32 bytes into a buffer of 65 cells.\<close>

theorem bytesToHex_lowercase_hex_witness:
  "32 \<le> length [0x00, 0x01, 0x0a, 0x0f, 0x10, 0x1f, 0x7f, 0x80, 0x9a, 0xa9, 0xbc, 0xcb, 0xde,
                  0xed, 0xf0, 0xff, 0x00, 0x11, 0x22, 0x33, 0x44, 0x55, 0x66, 0x77, 0x88, 0x99,
                  0xaa, 0xbb, 0xcc, 0xdd, 0xee, 0xff :: u8] \<and>
   2 * 32 + 1 \<le> length (replicate 65 (CHR ''?'')) \<and>
   length (cstring (bytesToHex
     [0x00, 0x01, 0x0a, 0x0f, 0x10, 0x1f, 0x7f, 0x80, 0x9a, 0xa9, 0xbc, 0xcb, 0xde,
      0xed, 0xf0, 0xff, 0x00, 0x11, 0x22, 0x33, 0x44, 0x55, 0x66, 0x77, 0x88, 0x99,
      0xaa, 0xbb, 0xcc, 0xdd, 0xee, 0xff] 32 (replicate 65 (CHR ''?'')))) = 64 \<and>
   bytesToHex
     [0x00, 0x01, 0x0a, 0x0f, 0x10, 0x1f, 0x7f, 0x80, 0x9a, 0xa9, 0xbc, 0xcb, 0xde,
      0xed, 0xf0, 0xff, 0x00, 0x11, 0x22, 0x33, 0x44, 0x55, 0x66, 0x77, 0x88, 0x99,
      0xaa, 0xbb, 0xcc, 0xdd, 0xee, 0xff] 32 (replicate 65 (CHR ''?'')) =
     ''00010a0f101f7f809aa9bccbdeedf0ff00112233445566778899aabbccddeeff'' @ [NUL]"
proof -
  let ?data = "[0x00, 0x01, 0x0a, 0x0f, 0x10, 0x1f, 0x7f, 0x80, 0x9a, 0xa9, 0xbc, 0xcb, 0xde,
      0xed, 0xf0, 0xff, 0x00, 0x11, 0x22, 0x33, 0x44, 0x55, 0x66, 0x77, 0x88, 0x99,
      0xaa, 0xbb, 0xcc, 0xdd, 0xee, 0xff :: u8]"
  have bytes: "32 \<le> length ?data" by simp
  have room: "2 * 32 + 1 \<le> length (replicate 65 (CHR ''?''))" by simp
  have written: "bytesToHex ?data 32 (replicate 65 (CHR ''?'')) =
      ''00010a0f101f7f809aa9bccbdeedf0ff00112233445566778899aabbccddeeff'' @ [NUL]"
    by code_simp
  from bytesToHex_lowercase_hex [OF bytes room]
  have "length (cstring (bytesToHex ?data 32 (replicate 65 (CHR ''?'')))) = 64"
    by blast
  with bytes room written show ?thesis
    by blast
qed

subsection \<open>C7\<close>

text \<open>
  C7, amended. Exchanging hardware id and public key changes the genesis hash exactly when
  the hasher gives the two concatenations different digests. Where the two concatenations
  are the same byte string (equal fields, or fields that are powers of a common word) the
  hash cannot change.
\<close>

theorem swapped_fields_hash:
  assumes "65 \<le> length out"
  shows "cstring (generateGenesisHash H h p s out) = cstring (generateGenesisHash H p h s out) \<longleftrightarrow>
           digest H (cstring h @ cstring p @ cstring s) = digest H (cstring p @ cstring h @ cstring s)"
  using assms
  by (auto simp: cstring_generateGenesisHash preimage_eq length_digest dest: hex_encode_inj [rotated])

text \<open>An instance: the golden vector with hardware id and public key exchanged.\<close>

theorem swapped_fields_hash_witness:
  "65 \<le> length (replicate 65 (CHR ''?'')) \<and>
   digest checksum_hasher (''AA:BB:CC:DD:EE:FF'' @ replicate 64 (CHR ''0'') @ ''test-salt'') \<noteq>
   digest checksum_hasher (replicate 64 (CHR ''0'') @ ''AA:BB:CC:DD:EE:FF'' @ ''test-salt'') \<and>
   cstring (generateGenesisHash checksum_hasher ''AA:BB:CC:DD:EE:FF'' (replicate 64 (CHR ''0''))
              ''test-salt'' (replicate 65 (CHR ''?''))) \<noteq>
   cstring (generateGenesisHash checksum_hasher (replicate 64 (CHR ''0'')) ''AA:BB:CC:DD:EE:FF''
              ''test-salt'' (replicate 65 (CHR ''?'')))"
proof -
  have room: "65 \<le> length (replicate 65 (CHR ''?''))" by simp
  have strings: "cstring ''AA:BB:CC:DD:EE:FF'' = ''AA:BB:CC:DD:EE:FF''"
    "cstring (replicate 64 (CHR ''0'')) = replicate 64 (CHR ''0'')"
    "cstring ''test-salt'' = ''test-salt''"
    by (simp_all add: cstring_def)
  have digests:
    "digest checksum_hasher (''AA:BB:CC:DD:EE:FF'' @ replicate 64 (CHR ''0'') @ ''test-salt'') \<noteq>
     digest checksum_hasher (replicate 64 (CHR ''0'') @ ''AA:BB:CC:DD:EE:FF'' @ ''test-salt'')"
    by code_simp
  from swapped_fields_hash [OF room, where H = checksum_hasher
      and h = "''AA:BB:CC:DD:EE:FF''" and p = "replicate 64 (CHR ''0'')" and s = "''test-salt''"]
  show ?thesis
    unfolding strings using room digests by blast
qed

text \<open>
  C7 as stated fails where the two orders give one byte string: \<open>AB\<close> followed by
  \<open>ABAB\<close> is \<open>ABAB\<close> followed by \<open>AB\<close>.
\<close>

theorem swapped_fields_same_hash_counterexample:
  "''AB'' \<noteq> ''ABAB'' \<and>
   generateGenesisHash checksum_hasher ''AB'' ''ABAB'' ''salt'' (replicate 65 (CHR ''?'')) =
   generateGenesisHash checksum_hasher ''ABAB'' ''AB'' ''salt'' (replicate 65 (CHR ''?''))"
  by code_simp

subsection \<open>C8\<close>

text \<open>
  C8. Determinism: the hash string that \<open>generateGenesisHash\<close> leaves depends on the three
  C strings only, not on the earlier content of the output buffer nor on the bytes that
  follow the terminators of the arguments, and it has 64 characters.
\<close>

theorem generateGenesisHash_deterministic:
  assumes "65 \<le> length out1" and "65 \<le> length out2"
    and "cstring h1 = cstring h2" and "cstring p1 = cstring p2" and "cstring s1 = cstring s2"
  shows "cstring (generateGenesisHash H h1 p1 s1 out1) = cstring (generateGenesisHash H h2 p2 s2 out2) \<and>
         length (cstring (generateGenesisHash H h1 p1 s1 out1)) = 64"
  using assms
  by (simp add: cstring_generateGenesisHash preimage_eq length_hex_encode length_digest)

text \<open>An instance: the same three C strings, once followed by leftover bytes, into two different buffers.\<close>

theorem generateGenesisHash_deterministic_witness:
  "65 \<le> length (replicate 65 (CHR ''?'')) \<and> 65 \<le> length (replicate 80 NUL) \<and>
   cstring ''AA:BB:CC:DD:EE:FF'' = cstring (''AA:BB:CC:DD:EE:FF'' @ [NUL] @ ''leftover'') \<and>
   cstring (replicate 64 (CHR ''0'')) = cstring (replicate 64 (CHR ''0'') @ [NUL]) \<and>
   cstring ''test-salt'' = cstring (''test-salt'' @ [NUL, NUL]) \<and>
   cstring (generateGenesisHash checksum_hasher ''AA:BB:CC:DD:EE:FF'' (replicate 64 (CHR ''0''))
              ''test-salt'' (replicate 65 (CHR ''?''))) =
   cstring (generateGenesisHash checksum_hasher (''AA:BB:CC:DD:EE:FF'' @ [NUL] @ ''leftover'')
              (replicate 64 (CHR ''0'') @ [NUL]) (''test-salt'' @ [NUL, NUL]) (replicate 80 NUL)) \<and>
   length (cstring (generateGenesisHash checksum_hasher ''AA:BB:CC:DD:EE:FF''
              (replicate 64 (CHR ''0'')) ''test-salt'' (replicate 65 (CHR ''?'')))) = 64"
proof -
  have out1: "65 \<le> length (replicate 65 (CHR ''?''))" by simp
  have out2: "65 \<le> length (replicate 80 NUL)" by simp
  have hw: "cstring ''AA:BB:CC:DD:EE:FF'' = cstring (''AA:BB:CC:DD:EE:FF'' @ [NUL] @ ''leftover'')"
    by (simp add: cstring_def)
  have pk: "cstring (replicate 64 (CHR ''0'')) = cstring (replicate 64 (CHR ''0'') @ [NUL])"
    by (simp add: cstring_append_NUL cstring_no_NUL)
  have salt: "cstring ''test-salt'' = cstring (''test-salt'' @ [NUL, NUL])"
    by (simp add: cstring_def)
  from generateGenesisHash_deterministic [OF out1 out2 hw pk salt] out1 out2 hw pk salt
  show ?thesis by blast
qed

subsection \<open>C9\<close>

text \<open>
  C9. \<open>verifyIdentityBlock\<close> leaves the block as it found it, whatever it answers: its only
  writes go to the local array, and none of them lands beyond the 65 cells of that array.
\<close>

theorem verifyIdentityBlock_frame:
  "fst (snd (verifyIdentityBlock H block salt expected_hash)) = block \<and>
   drop 65 (snd (snd (verifyIdentityBlock H block salt expected_hash))) = drop 65 expected_hash"
  by (simp add: verifyIdentityBlock_def Let_def drop_generateGenesisHash)

subsection \<open>C10\<close>

text \<open>
  C10. The preimage is not injective in the three fields: moving a character across the
  boundary between hardware id and public key gives a different triple with the same
  preimage, hence the same genesis hash under every hasher.
\<close>

theorem preimage_not_injective:
  "(''AA:BB'', ''CC'', ''salt'') \<noteq> (''AA:B'', ''BCC'', ''salt'') \<and>
   preimage ''AA:BB'' ''CC'' ''salt'' = preimage ''AA:B'' ''BCC'' ''salt'' \<and>
   generateGenesisHash H ''AA:BB'' ''CC'' ''salt'' out =
     generateGenesisHash H ''AA:B'' ''BCC'' ''salt'' out"
proof -
  have "preimage ''AA:BB'' ''CC'' ''salt'' = preimage ''AA:B'' ''BCC'' ''salt''"
    by (simp add: preimage_eq cstring_def)
  then show ?thesis
    by (simp add: generateGenesisHash_def)
qed

end
